theory Spec2Isabelle
  imports Main "HOL-Library.Sublist"
begin

section \<open>Python values and strings\<close>

text \<open>
  A Python \<open>str\<close> is a sequence of Unicode code points; \<open>len\<close>, \<open>strip\<close>, \<open>count\<close> and the
  regular expressions of \<open>email_validator.py\<close> all work on code points.  A string is
  therefore a list of code-point numbers.  The literals of the source are ASCII and are
  written through \<open>ascii\<close>.
\<close>

type_synonym pystr = "nat list"

definition ascii :: "string \<Rightarrow> pystr" where
  "ascii s = map of_char s"

text \<open>
  \<open>validate_email\<close> is annotated \<open>email: str\<close> but Python does not enforce it: the first
  statement of the function tests \<open>isinstance(email, str)\<close>.  The argument is any value.
\<close>

datatype pyval =
    PyStr pystr
  | PyNone
  | PyBool bool
  | PyInt int
  | PyBytes "nat list"
  | PyList "pyval list"

text \<open>The exceptions the statements of \<open>validate_email\<close> could raise: tuple unpacking
  of a list of the wrong length (\<open>ValueError\<close>) and indexing an empty list (\<open>IndexError\<close>).\<close>

datatype pyexn = ValueError | IndexError

section \<open>String operations used by the validator\<close>

text \<open>\<open>str.strip()\<close> without argument removes leading and trailing characters for which
  \<open>str.isspace\<close> holds (CPython's \<open>_PyUnicode_IsWhitespace\<close>).\<close>

definition is_space :: "nat \<Rightarrow> bool" where
  "is_space c =
     ((9 \<le> c \<and> c \<le> 13) \<or> (28 \<le> c \<and> c \<le> 32) \<or> c = 133 \<or> c = 160 \<or> c = 5760
      \<or> (8192 \<le> c \<and> c \<le> 8202) \<or> c = 8232 \<or> c = 8233 \<or> c = 8239 \<or> c = 8287
      \<or> c = 12288)"

definition strip :: "pystr \<Rightarrow> pystr" where
  "strip s = rev (dropWhile is_space (rev (dropWhile is_space s)))"

text \<open>\<open>s.count(c)\<close> for a one-character \<open>c\<close>.\<close>

definition count_char :: "pystr \<Rightarrow> nat \<Rightarrow> nat" where
  "count_char s c = length (filter (\<lambda>x. x = c) s)"

text \<open>\<open>s.rsplit(c, 1)\<close> for a one-character separator: split at the last occurrence of
  \<open>c\<close>, or the whole string alone when \<open>c\<close> does not occur.\<close>

definition rsplit1 :: "pystr \<Rightarrow> nat \<Rightarrow> pystr list" where
  "rsplit1 s c =
     (if c \<in> set s
      then [rev (tl (dropWhile (\<lambda>x. x \<noteq> c) (rev s))), rev (takeWhile (\<lambda>x. x \<noteq> c) (rev s))]
      else [s])"

text \<open>\<open>s.split(c)\<close> for a one-character separator: always at least one piece.\<close>

fun split_on :: "pystr \<Rightarrow> nat \<Rightarrow> pystr list" where
  "split_on [] c = [[]]"
| "split_on (x # xs) c =
     (if x = c then [] # split_on xs c
      else (x # hd (split_on xs c)) # tl (split_on xs c))"

definition startswith :: "pystr \<Rightarrow> pystr \<Rightarrow> bool" where
  "startswith s p = prefix p s"

definition endswith :: "pystr \<Rightarrow> pystr \<Rightarrow> bool" where
  "endswith s p = suffix p s"

text \<open>\<open>sub in s\<close>: \<open>sub\<close> occurs in \<open>s\<close> as a contiguous substring.\<close>

fun contains :: "pystr \<Rightarrow> pystr \<Rightarrow> bool" where
  "contains [] sub = (sub = [])"
| "contains (x # xs) sub = (prefix sub (x # xs) \<or> contains xs sub)"

text \<open>\<open>xs[-1]\<close> raises \<open>IndexError\<close> on an empty list.\<close>

definition index_last :: "'a list \<Rightarrow> pyexn + 'a" where
  "index_last xs = (if xs = [] then Inl IndexError else Inr (last xs))"

section \<open>Module constants\<close>

definition LOCAL_ALLOWED :: "nat set" where
  "LOCAL_ALLOWED =
     set (ascii ''abcdefghijklmnopqrstuvwxyz''
          @ ascii ''ABCDEFGHIJKLMNOPQRSTUVWXYZ''
          @ ascii ''0123456789''
          @ ascii ''!#$%&'*+/=?^_`{|}~.-'')"

definition is_alpha :: "nat \<Rightarrow> bool" where
  "is_alpha c = ((65 \<le> c \<and> c \<le> 90) \<or> (97 \<le> c \<and> c \<le> 122))"

definition is_digit :: "nat \<Rightarrow> bool" where
  "is_digit c = (48 \<le> c \<and> c \<le> 57)"

definition is_alnum :: "nat \<Rightarrow> bool" where
  "is_alnum c = (is_alpha c \<or> is_digit c)"

definition is_alnum_hyphen :: "nat \<Rightarrow> bool" where
  "is_alnum_hyphen c = (is_alnum c \<or> c = 45)"

text \<open>
  The two compiled patterns are used only through \<open>.match(s)\<close>, whose truth value says
  whether the pattern matches from the start of \<open>s\<close>.  Both patterns end in \<open>$\<close>, which in
  Python (no \<open>MULTILINE\<close> flag) matches at the end of the string and also just before a
  newline that is the last character of the string.  \<open>dollar_end\<close> lifts the language of
  the pattern's body to that of the whole pattern.  The classes \<open>[A-Za-z]\<close>, \<open>[A-Za-z0-9]\<close>
  and \<open>[A-Za-z0-9-]\<close> are ASCII ranges.
\<close>

definition dollar_end :: "(pystr \<Rightarrow> bool) \<Rightarrow> pystr \<Rightarrow> bool" where
  "dollar_end body s = (body s \<or> (s \<noteq> [] \<and> last s = 10 \<and> body (butlast s)))"

text \<open>Body of \<open>_label_re\<close>: \<open>[A-Za-z0-9](?:[A-Za-z0-9-]{0,61}[A-Za-z0-9])?\<close>.\<close>

fun label_body :: "pystr \<Rightarrow> bool" where
  "label_body [] = False"
| "label_body (c # rest) =
     (is_alnum c \<and>
      (rest = [] \<or>
       (length (butlast rest) \<le> 61 \<and> list_all is_alnum_hyphen (butlast rest)
        \<and> is_alnum (last rest))))"

definition label_re_match :: "pystr \<Rightarrow> bool" where
  "label_re_match s = dollar_end label_body s"

text \<open>Body of \<open>_tld_re\<close>: \<open>[A-Za-z]{2,63}\<close>.\<close>

definition tld_body :: "pystr \<Rightarrow> bool" where
  "tld_body s = (2 \<le> length s \<and> length s \<le> 63 \<and> list_all is_alpha s)"

definition tld_re_match :: "pystr \<Rightarrow> bool" where
  "tld_re_match s = dollar_end tld_body s"

section \<open>The validator\<close>

text \<open>
  The result of \<open>validate_email\<close> is the pair \<open>(bool, str)\<close> of the source, or the exception
  a statement raises.  The reason for a bad local-part character is formatted with the
  builtin \<open>repr\<close>, whose output depends on the Unicode character database; it is a
  parameter of the model, and every theorem below holds for each \<open>repr\<close>.
\<close>

type_synonym result = "pyexn + (bool \<times> pystr)"

text \<open>\<open>for ch in local: if ch not in _LOCAL_ALLOWED: return ...\<close>; \<open>None\<close> when the loop
  runs to its end.\<close>

fun local_loop :: "(pystr \<Rightarrow> pystr) \<Rightarrow> pystr \<Rightarrow> (bool \<times> pystr) option" where
  "local_loop repr [] = None"
| "local_loop repr (ch # rest) =
     (if ch \<notin> LOCAL_ALLOWED
      then Some (False, ascii ''Invalid character in local part: '' @ repr [ch])
      else local_loop repr rest)"

text \<open>\<open>for label in labels: ...\<close>; \<open>None\<close> when the loop runs to its end.\<close>

fun label_loop :: "pystr list \<Rightarrow> (bool \<times> pystr) option" where
  "label_loop [] = None"
| "label_loop (label # rest) =
     (if label = []
      then Some (False,
             ascii ''Empty domain label (consecutive dots or leading/trailing dot).'')
      else if length label > 63
      then Some (False,
             ascii ''Domain label '' @ [39] @ label @ [39]
             @ ascii '' is too long (more than 63 chars).'')
      else if \<not> label_re_match label
      then Some (False,
             ascii ''Invalid domain label: '' @ [39] @ label @ [39]
             @ ascii ''. Labels must start and end with letter or digit; internal chars may include hyphens.'')
      else label_loop rest)"

definition validate_email :: "(pystr \<Rightarrow> pystr) \<Rightarrow> pyval \<Rightarrow> result" where
  "validate_email repr v =
     (case v of
        PyStr email0 \<Rightarrow>
          (let email = strip email0 in
           if email = []
           then Inr (False, ascii ''Email is empty after stripping whitespace.'')
           else if length email > 254
           then Inr (False, ascii ''Email is too long (more than 254 characters).'')
           else if count_char email 64 \<noteq> 1
           then Inr (False, ascii ''Email must contain exactly one '@' character.'')
           else
             (case rsplit1 email 64 of
                [local, domain] \<Rightarrow>
                  if local = []
                  then Inr (False, ascii ''Local part (before '@') is empty.'')
                  else if length local > 64
                  then Inr (False, ascii ''Local part is too long (more than 64 characters).'')
                  else if startswith local [46] \<or> endswith local [46]
                  then Inr (False, ascii ''Local part must not start or end with a dot.'')
                  else if contains local [46, 46]
                  then Inr (False, ascii ''Local part must not contain consecutive dots.'')
                  else
                    (case local_loop repr local of
                       Some r \<Rightarrow> Inr r
                     | None \<Rightarrow>
                         if domain = []
                         then Inr (False, ascii ''Domain part (after '@') is empty.'')
                         else if length domain > 255
                         then Inr (False,
                                ascii ''Domain part is too long (more than 255 characters).'')
                         else if startswith domain [46] \<or> endswith domain [46]
                         then Inr (False, ascii ''Domain must not start or end with a dot.'')
                         else if contains domain [46, 46]
                         then Inr (False, ascii ''Domain must not contain consecutive dots.'')
                         else
                           (let labels = split_on domain 46 in
                            if length labels < 2
                            then Inr (False,
                                   ascii ''Domain should contain at least one dot (e.g., example.com).'')
                            else
                              (case label_loop labels of
                                 Some r \<Rightarrow> Inr r
                               | None \<Rightarrow>
                                   (case index_last labels of
                                      Inl e \<Rightarrow> Inl e
                                    | Inr tld \<Rightarrow>
                                        if \<not> tld_re_match tld
                                        then Inr (False,
                                               ascii ''Top-level domain '' @ [39] @ tld @ [39]
                                               @ ascii '' must be alphabetic and 2-63 characters long.'')
                                        else Inr (True, ascii ''OK'')))))
              | _ \<Rightarrow> Inl ValueError))
      | _ \<Rightarrow> Inr (False, ascii ''Email must be a string.''))"

text \<open>An instance of the parameter for concrete examples: what \<open>repr\<close> returns on a
  string of printable ASCII characters other than the quote and the backslash.\<close>

definition repr_quote :: "pystr \<Rightarrow> pystr" where
  "repr_quote s = [39] @ s @ [39]"

section \<open>Facts about the string operations\<close>

lemma count_char_dropWhile: "\<not> P c \<Longrightarrow> count_char (dropWhile P s) c = count_char s c"
  by (induction s) (auto simp: count_char_def)

lemma count_char_rev: "count_char (rev s) c = count_char s c"
  by (simp add: count_char_def flip: rev_filter)

lemma count_char_strip: "count_char (strip s) 64 = count_char s 64"
  by (simp add: strip_def count_char_rev count_char_dropWhile is_space_def)

lemma count_char_in_set: "count_char s c \<noteq> 0 \<Longrightarrow> c \<in> set s"
  by (induction s) (auto simp: count_char_def split: if_splits)

lemma rsplit1_in:
  assumes "c \<in> set s"
  shows "\<exists>l d. rsplit1 s c = [l, d] \<and> s = l @ c # d"
proof -
  let ?tw = "takeWhile (\<lambda>x. x \<noteq> c) (rev s)"
  let ?dw = "dropWhile (\<lambda>x. x \<noteq> c) (rev s)"
  from assms have ne: "?dw \<noteq> []" by (simp add: dropWhile_eq_Nil_conv)
  then have "hd ?dw = c" using hd_dropWhile[of "\<lambda>x. x \<noteq> c" "rev s"] by simp
  with ne have dw: "?dw = c # tl ?dw" by (cases ?dw) auto
  have "rev s = ?tw @ ?dw" by simp
  then have "rev s = ?tw @ c # tl ?dw" using dw by simp
  then have "rev (rev s) = rev (?tw @ c # tl ?dw)" by (rule arg_cong)
  then have "s = rev (tl ?dw) @ c # rev ?tw" by simp
  with assms show ?thesis by (simp add: rsplit1_def)
qed

lemma split_on_nonempty: "split_on s c \<noteq> []"
  by (induction s) auto

lemma split_on_no_sep: "c \<notin> set s \<Longrightarrow> split_on s c = [s]"
  by (induction s) auto

lemma label_loop_None:
  "label_loop ls = None \<Longrightarrow> l \<in> set ls \<Longrightarrow> l \<noteq> [] \<and> length l \<le> 63 \<and> label_re_match l"
  by (induction ls) (auto split: if_splits)

lemma label_loop_Some: "label_loop ls = Some r \<Longrightarrow> fst r = False"
  by (induction ls) (auto split: if_splits)

lemma local_loop_Some: "local_loop repr l = Some r \<Longrightarrow> fst r = False"
  by (induction l) (auto split: if_splits)

lemma validate_email_valid_inv:
  assumes "validate_email repr (PyStr s) = Inr (True, r)"
  shows "\<exists>local domain.
           strip s \<noteq> [] \<and> length (strip s) \<le> 254 \<and> count_char (strip s) 64 = 1
           \<and> rsplit1 (strip s) 64 = [local, domain]
           \<and> local \<noteq> [] \<and> length local \<le> 64
           \<and> \<not> startswith local [46] \<and> \<not> endswith local [46] \<and> \<not> contains local [46, 46]
           \<and> local_loop repr local = None
           \<and> domain \<noteq> [] \<and> length domain \<le> 255
           \<and> \<not> startswith domain [46] \<and> \<not> endswith domain [46] \<and> \<not> contains domain [46, 46]
           \<and> 2 \<le> length (split_on domain 46)
           \<and> label_loop (split_on domain 46) = None
           \<and> tld_re_match (last (split_on domain 46))
           \<and> r = ascii ''OK''"
  using assms unfolding validate_email_def Let_def index_last_def
  by (auto split: if_splits list.splits option.splits sum.splits dest: label_loop_Some local_loop_Some)

lemma validate_email_returns: "\<exists>b r. validate_email repr v = Inr (b, r)"
proof (cases v)
  case (PyStr s)
  show ?thesis
  proof (cases "count_char (strip s) 64 = 1")
    case True
    then have "64 \<in> set (strip s)" using count_char_in_set[of "strip s" 64] by simp
    then obtain l d where "rsplit1 (strip s) 64 = [l, d]" using rsplit1_in by blast
    then show ?thesis using PyStr split_on_nonempty[of d 46]
      unfolding validate_email_def Let_def index_last_def
      by (cases "local_loop repr l"; cases "label_loop (split_on d 46)") auto
  next
    case False
    then show ?thesis using PyStr unfolding validate_email_def Let_def by auto
  qed
qed (auto simp: validate_email_def)



text \<open>The equations that evaluate the validator on a concrete string.\<close>

lemmas ev = validate_email_def strip_def is_space_def count_char_def rsplit1_def startswith_def endswith_def
  LOCAL_ALLOWED_def label_re_match_def tld_re_match_def dollar_end_def tld_body_def index_last_def
  is_alpha_def is_digit_def is_alnum_def is_alnum_hyphen_def ascii_def Let_def suffix_to_prefix repr_quote_def

lemma validate_email_invalid:
  assumes "\<And>r. validate_email repr (PyStr s) \<noteq> Inr (True, r)"
  shows "\<exists>r. validate_email repr (PyStr s) = Inr (False, r)"
proof -
  obtain b r where br: "validate_email repr (PyStr s) = Inr (b, r)"
    using validate_email_returns by blast
  with assms have "\<not> b" by (cases b) auto
  with br show ?thesis by auto
qed

lemma local_loop_find:
  "local_loop repr l =
     (case find (\<lambda>c. c \<notin> LOCAL_ALLOWED) l of
        None \<Rightarrow> None
      | Some ch \<Rightarrow> Some (False, ascii ''Invalid character in local part: '' @ repr [ch]))"
  by (induction l) auto

lemma local_loop_reason:
  "local_loop repr l = Some r \<Longrightarrow>
     \<exists>ch. r = (False, ascii ''Invalid character in local part: '' @ repr [ch])"
  by (induction l) (auto split: if_splits)

lemma label_loop_reason:
  "label_loop ls = Some r \<Longrightarrow>
     r = (False, ascii ''Empty domain label (consecutive dots or leading/trailing dot).'')
     \<or> (\<exists>label. r = (False, ascii ''Domain label '' @ [39] @ label @ [39]
                            @ ascii '' is too long (more than 63 chars).''))
     \<or> (\<exists>label. r = (False, ascii ''Invalid domain label: '' @ [39] @ label @ [39]
             @ ascii ''. Labels must start and end with letter or digit; internal chars may include hyphens.''))"
  by (induction ls) (auto split: if_splits)

lemma rsplit1_lengths:
  assumes "rsplit1 e c = [l, d]"
  shows "length e = length l + 1 + length d"
proof -
  from assms have "c \<in> set e" by (auto simp: rsplit1_def split: if_splits)
  then obtain l' d' where "rsplit1 e c = [l', d']" "e = l' @ c # d'" using rsplit1_in by blast
  with assms show ?thesis by simp
qed

lemma domain_length_bound:
  assumes "length e \<le> 254" "rsplit1 e 64 = [local, domain]" "local \<noteq> []"
  shows "length domain \<le> 252"
proof -
  have "length e = length local + 1 + length domain" using assms(2) by (rule rsplit1_lengths)
  moreover have "1 \<le> length local" using assms(3) by (cases local) auto
  ultimately show ?thesis using assms(1) by arith
qed

lemma domain_check_passes:
  "rsplit1 e 64 = [local, domain] \<Longrightarrow> \<not> 254 < length e \<Longrightarrow> local \<noteq> []
     \<Longrightarrow> 255 < length domain \<Longrightarrow> False"
  using domain_length_bound[of e local domain] by simp

lemma tld_re_match_D:
  assumes "tld_re_match t"
  shows "2 \<le> length t \<and> (\<forall>c\<in>set t. \<not> is_digit c)"
proof -
  from assms have "tld_body t \<or> (t \<noteq> [] \<and> last t = 10 \<and> tld_body (butlast t))"
    by (simp add: tld_re_match_def dollar_end_def)
  then show ?thesis
  proof
    assume "tld_body t"
    then show ?thesis by (auto simp: tld_body_def list_all_iff is_alpha_def is_digit_def)
  next
    assume a: "t \<noteq> [] \<and> last t = 10 \<and> tld_body (butlast t)"
    then have t: "t = butlast t @ [10]" using append_butlast_last_id[of t] by simp
    from a have "2 \<le> length (butlast t)" "\<forall>c\<in>set (butlast t). is_alpha c"
      by (auto simp: tld_body_def list_all_iff)
    moreover have "set t = set (butlast t) \<union> {10}" by (subst t) simp
    ultimately show ?thesis by (auto simp: is_alpha_def is_digit_def)
  qed
qed

lemma strip_last_not_space: "strip s \<noteq> [] \<Longrightarrow> \<not> is_space (last (strip s))"
proof -
  let ?X = "dropWhile is_space (rev (dropWhile is_space s))"
  assume "strip s \<noteq> []"
  then have ne: "?X \<noteq> []" by (simp add: strip_def)
  then have "\<not> is_space (hd ?X)" by (rule hd_dropWhile)
  moreover have "last (strip s) = hd ?X" using ne by (simp add: strip_def last_rev)
  ultimately show ?thesis by simp
qed

lemma split_on_last_last:
  "last (split_on d c) \<noteq> [] \<Longrightarrow> last (last (split_on d c)) = last d"
proof (induction d)
  case Nil
  then show ?case by simp
next
  case (Cons x xs)
  obtain p ps where r: "split_on xs c = p # ps"
    using split_on_nonempty[of xs c] by (cases "split_on xs c") auto
  show ?case
  proof (cases xs)
    case Nil
    with Cons.prems show ?thesis by (auto split: if_splits)
  next
    case (Cons y ys)
    with Cons.IH Cons.prems r show ?thesis by (auto simp: split_on_nonempty split: if_splits)
  qed
qed

text \<open>The \<open>$\<close> of \<open>_tld_re\<close> would accept a newline after the letters, but the last label
  ends the trimmed input and a newline is whitespace: a valid address has a top-level domain
  of 2 to 63 ASCII letters and nothing else.\<close>

lemma valid_tld_alphabetic:
  assumes "validate_email repr (PyStr s) = Inr (True, r)"
    and "rsplit1 (strip s) 64 = [local, domain]"
  shows "tld_body (last (split_on domain 46))"
proof -
  let ?tld = "last (split_on domain 46)"
  from validate_email_valid_inv [OF assms(1)] assms(2)
  have ne: "strip s \<noteq> []" and dne: "domain \<noteq> []" and m: "tld_re_match ?tld"
    and c: "count_char (strip s) 64 = 1"
    by auto
  from c have "64 \<in> set (strip s)" using count_char_in_set[of "strip s" 64] by simp
  then obtain l d where "rsplit1 (strip s) 64 = [l, d]" "strip s = l @ 64 # d"
    using rsplit1_in by blast
  with assms(2) have "strip s = local @ 64 # domain" by simp
  with dne have le: "last (strip s) = last domain" by simp
  show ?thesis
  proof (rule ccontr)
    assume "\<not> tld_body ?tld"
    with m have t: "?tld \<noteq> []" "last ?tld = 10" by (auto simp: tld_re_match_def dollar_end_def)
    from t(1) have "last ?tld = last domain" by (rule split_on_last_last)
    with t(2) le have "last (strip s) = 10" by simp
    moreover have "is_space 10" by (simp add: is_space_def)
    ultimately show False using strip_last_not_space [OF ne] by simp
  qed
qed

text \<open>The equations that evaluate the hypotheses of the examples.\<close>

lemmas ex_ev = strip_def is_space_def count_char_def rsplit1_def startswith_def endswith_def
  suffix_to_prefix ascii_def is_digit_def

text \<open>A one-character label and a label with a digit are accepted before the last label.\<close>

lemma nonfinal_label_example:
  "validate_email repr (PyStr (ascii ''user@a.1b.com'')) = Inr (True, ascii ''OK'')"
  by (simp add: ev)

section \<open>Properties of the validator\<close>

text \<open>
  C1: for every input value \<open>validate_email\<close> returns a pair of a boolean and a reason
  and raises no exception (the result is never \<open>Inl\<close>); and for every value that is not a
  string the result is \<open>(False, "Email must be a string.")\<close>.
\<close>

theorem validate_email_total:
  "(\<exists>b r. validate_email repr v = Inr (b, r))
   \<and> ((\<forall>s. v \<noteq> PyStr s) \<longrightarrow> validate_email repr v = Inr (False, ascii ''Email must be a string.''))"
proof
  show "\<exists>b r. validate_email repr v = Inr (b, r)" by (rule validate_email_returns)
  show "(\<forall>s. v \<noteq> PyStr s) \<longrightarrow> validate_email repr v = Inr (False, ascii ''Email must be a string.'')"
    by (cases v) (simp_all add: validate_email_def)
qed

theorem validate_email_total_witness:
  "(\<forall>s. PyInt 42 \<noteq> PyStr s)
   \<and> validate_email repr_quote (PyInt 42) = Inr (False, ascii ''Email must be a string.'')"
  using validate_email_total [of repr_quote "PyInt 42"] by simp

text \<open>
  C2: \<open>validate_email("alice@example.com")\<close> and
  \<open>validate_email("user.name+tag+sorting@example.co.uk")\<close> both return \<open>(True, "OK")\<close>.
\<close>

theorem literal_valid_examples:
  "validate_email repr (PyStr (ascii ''alice@example.com'')) = Inr (True, ascii ''OK'')
   \<and> validate_email repr (PyStr (ascii ''user.name+tag+sorting@example.co.uk''))
       = Inr (True, ascii ''OK'')"
  by (simp add: ev)

text \<open>
  C3, as stated: every string whose number of \<open>@\<close> characters is not one is rejected with
  a reason that refers to the \<open>@\<close> count.  The rejection holds, the reason does not: the
  empty string has no \<open>@\<close> and is rejected as "Email is empty after stripping whitespace.",
  a reason without any \<open>@\<close> in it, because the emptiness check comes first.
\<close>

theorem at_count_reason_counterexample:
  "count_char [] 64 = 0
   \<and> validate_email repr_quote (PyStr [])
       = Inr (False, ascii ''Email is empty after stripping whitespace.'')
   \<and> validate_email repr_quote (PyStr [])
       \<noteq> Inr (False, ascii ''Email must contain exactly one '@' character.'')
   \<and> 64 \<notin> set (ascii ''Email is empty after stripping whitespace.'')"
  by (simp add: ev)

text \<open>
  C3, amended: every string whose number of \<open>@\<close> characters is not one is rejected; the
  reason is the one of the first failing check: the empty reason when the trimmed input is
  empty, the overall-length reason when it has more than 254 characters, and the reason
  "Email must contain exactly one '@' character." otherwise.
\<close>

theorem at_count_invalid:
  assumes "count_char s 64 \<noteq> 1"
  shows "validate_email repr (PyStr s) =
           Inr (False,
             if strip s = [] then ascii ''Email is empty after stripping whitespace.''
             else if length (strip s) > 254
             then ascii ''Email is too long (more than 254 characters).''
             else ascii ''Email must contain exactly one '@' character.'')"
  using assms by (simp add: validate_email_def Let_def count_char_strip)

theorem at_count_invalid_witness:
  "count_char (ascii ''a@b@c.com'') 64 \<noteq> 1
   \<and> validate_email repr_quote (PyStr (ascii ''a@b@c.com''))
       = Inr (False, ascii ''Email must contain exactly one '@' character.'')"
proof -
  have h: "count_char (ascii ''a@b@c.com'') 64 \<noteq> 1" by (simp add: count_char_def ascii_def)
  have e: "strip (ascii ''a@b@c.com'') = ascii ''a@b@c.com''"
    by (simp add: strip_def ascii_def is_space_def)
  show ?thesis using h at_count_invalid [OF h, of repr_quote] by (simp add: e) (simp add: ascii_def)
qed

text \<open>
  C4: every string whose trimmed value is non-empty and longer than 254 characters is
  rejected with the reason "Email is too long (more than 254 characters).", whatever else is
  wrong with it.
\<close>

theorem too_long_reason:
  assumes "strip s \<noteq> []" "length (strip s) > 254"
  shows "validate_email repr (PyStr s)
           = Inr (False, ascii ''Email is too long (more than 254 characters).'')"
  using assms by (simp add: validate_email_def Let_def)

theorem too_long_reason_witness:
  "strip (32 # replicate 255 97) \<noteq> [] \<and> length (strip (32 # replicate 255 97)) > 254
   \<and> validate_email repr_quote (PyStr (32 # replicate 255 97))
       = Inr (False, ascii ''Email is too long (more than 254 characters).'')"
proof -
  have e: "strip (32 # replicate 255 97) = replicate 255 97"
    by (simp add: strip_def is_space_def)
  have h1: "strip (32 # replicate 255 97) \<noteq> []" by (simp add: e)
  have h2: "length (strip (32 # replicate 255 97)) > 254" by (simp add: e)
  show ?thesis using h1 h2 too_long_reason [OF h1 h2, of repr_quote] by simp
qed

text \<open>
  C5: for every string that passes the trimming, overall-length and \<open>@\<close>-count checks and
  whose local part is non-empty, at most 64 characters long and free of leading, trailing and
  consecutive dots: if the local part contains a character outside \<open>_LOCAL_ALLOWED\<close>, the
  string is rejected with the reason "Invalid character in local part: " followed by the
  \<open>repr\<close> of an offending character of the local part, namely the first one.
\<close>

theorem local_bad_character:
  assumes "strip s \<noteq> []" and "length (strip s) \<le> 254" and "count_char (strip s) 64 = 1"
    and "rsplit1 (strip s) 64 = [local, domain]"
    and "local \<noteq> []" and "length local \<le> 64"
    and "\<not> startswith local [46]" and "\<not> endswith local [46]"
    and "\<not> contains local [46, 46]"
    and "ch \<in> set local" and "ch \<notin> LOCAL_ALLOWED"
  shows "\<exists>bad. find (\<lambda>c. c \<notin> LOCAL_ALLOWED) local = Some bad
           \<and> bad \<in> set local \<and> bad \<notin> LOCAL_ALLOWED
           \<and> validate_email repr (PyStr s)
               = Inr (False, ascii ''Invalid character in local part: '' @ repr [bad])"
proof -
  from assms(10,11) obtain bad where f: "find (\<lambda>c. c \<notin> LOCAL_ALLOWED) local = Some bad"
    by (cases "find (\<lambda>c. c \<notin> LOCAL_ALLOWED) local") (auto simp: find_None_iff)
  then have b: "bad \<in> set local \<and> bad \<notin> LOCAL_ALLOWED"
    by (auto simp: find_Some_iff)
  have "local_loop repr local
          = Some (False, ascii ''Invalid character in local part: '' @ repr [bad])"
    by (simp add: local_loop_find f)
  then have "validate_email repr (PyStr s)
               = Inr (False, ascii ''Invalid character in local part: '' @ repr [bad])"
    using assms(1-9) by (simp add: validate_email_def Let_def)
  with f b show ?thesis by simp
qed

theorem local_bad_character_witness:
  "strip (ascii ''a b@example.com'') \<noteq> [] \<and> length (strip (ascii ''a b@example.com'')) \<le> 254
   \<and> count_char (strip (ascii ''a b@example.com'')) 64 = 1
   \<and> rsplit1 (strip (ascii ''a b@example.com'')) 64 = [ascii ''a b'', ascii ''example.com'']
   \<and> ascii ''a b'' \<noteq> [] \<and> length (ascii ''a b'') \<le> 64
   \<and> \<not> startswith (ascii ''a b'') [46] \<and> \<not> endswith (ascii ''a b'') [46]
   \<and> \<not> contains (ascii ''a b'') [46, 46]
   \<and> 32 \<in> set (ascii ''a b'') \<and> 32 \<notin> LOCAL_ALLOWED
   \<and> validate_email repr_quote (PyStr (ascii ''a b@example.com''))
       = Inr (False, ascii ''Invalid character in local part: '' @ [39, 32, 39])"
proof -
  have e: "strip (ascii ''a b@example.com'') = ascii ''a b@example.com''"
    by (simp add: strip_def ascii_def is_space_def)
  have h1: "strip (ascii ''a b@example.com'') \<noteq> []" by (simp add: e) (simp add: ascii_def)
  have h2: "length (strip (ascii ''a b@example.com'')) \<le> 254" by (simp add: e) (simp add: ascii_def)
  have h3: "count_char (strip (ascii ''a b@example.com'')) 64 = 1"
    by (simp add: e) (simp add: ascii_def count_char_def)
  have h4: "rsplit1 (strip (ascii ''a b@example.com'')) 64 = [ascii ''a b'', ascii ''example.com'']"
    by (simp add: e) (simp add: ascii_def rsplit1_def)
  have h5: "ascii ''a b'' \<noteq> []" by (simp add: ascii_def)
  have h6: "length (ascii ''a b'') \<le> 64" by (simp add: ascii_def)
  have h7: "\<not> startswith (ascii ''a b'') [46]" by (simp add: ascii_def startswith_def)
  have h8: "\<not> endswith (ascii ''a b'') [46]" by (simp add: ascii_def endswith_def suffix_to_prefix)
  have h9: "\<not> contains (ascii ''a b'') [46, 46]" by (simp add: ascii_def)
  have h10: "32 \<in> set (ascii ''a b'')" by (simp add: ascii_def)
  have h11: "32 \<notin> LOCAL_ALLOWED" by (simp add: LOCAL_ALLOWED_def ascii_def)
  have f: "find (\<lambda>c. c \<notin> LOCAL_ALLOWED) (ascii ''a b'') = Some 32"
    by (simp add: LOCAL_ALLOWED_def ascii_def)
  show ?thesis
    using h1 h2 h3 h4 h5 h6 h7 h8 h9 h10 h11
      local_bad_character [OF h1 h2 h3 h4 h5 h6 h7 h8 h9 h10 h11, of repr_quote]
    by (simp add: f repr_quote_def)
qed

text \<open>
  C6: for every string that reaches the split into local part and domain (trimmed value
  non-empty, at most 254 characters, exactly one \<open>@\<close>): if the local part or the domain starts
  with a dot, ends with a dot or contains two consecutive dots, or the local part or some
  label of the domain is empty, the string is rejected.
\<close>

theorem empty_part_invalid:
  assumes "strip s \<noteq> []" and "length (strip s) \<le> 254" and "count_char (strip s) 64 = 1"
    and "rsplit1 (strip s) 64 = [local, domain]"
    and "local = [] \<or> startswith local [46] \<or> endswith local [46] \<or> contains local [46, 46]
         \<or> startswith domain [46] \<or> endswith domain [46] \<or> contains domain [46, 46]
         \<or> [] \<in> set (split_on domain 46)"
  shows "\<exists>r. validate_email repr (PyStr s) = Inr (False, r)"
proof (rule validate_email_invalid)
  fix r
  show "validate_email repr (PyStr s) \<noteq> Inr (True, r)"
  proof
    assume "validate_email repr (PyStr s) = Inr (True, r)"
    from validate_email_valid_inv [OF this] assms(4)
    have ok: "local \<noteq> []" "\<not> startswith local [46]" "\<not> endswith local [46]"
      "\<not> contains local [46, 46]" "\<not> startswith domain [46]" "\<not> endswith domain [46]"
      "\<not> contains domain [46, 46]" "label_loop (split_on domain 46) = None"
      by auto
    from ok(8) have "[] \<notin> set (split_on domain 46)"
      using label_loop_None by blast
    with ok assms(5) show False by blast
  qed
qed

theorem empty_part_invalid_witness:
  "strip (ascii ''user@example..com'') \<noteq> [] \<and> length (strip (ascii ''user@example..com'')) \<le> 254
   \<and> count_char (strip (ascii ''user@example..com'')) 64 = 1
   \<and> rsplit1 (strip (ascii ''user@example..com'')) 64 = [ascii ''user'', ascii ''example..com'']
   \<and> contains (ascii ''example..com'') [46, 46]
   \<and> [] \<in> set (split_on (ascii ''example..com'') 46)
   \<and> (\<exists>r. validate_email repr_quote (PyStr (ascii ''user@example..com'')) = Inr (False, r))"
proof -
  have h1: "strip (ascii ''user@example..com'') \<noteq> []" by (simp add: ex_ev)
  have h2: "length (strip (ascii ''user@example..com'')) \<le> 254" by (simp add: ex_ev)
  have h3: "count_char (strip (ascii ''user@example..com'')) 64 = 1" by (simp add: ex_ev)
  have h4: "rsplit1 (strip (ascii ''user@example..com'')) 64
              = [ascii ''user'', ascii ''example..com'']" by (simp add: ex_ev)
  have h5: "contains (ascii ''example..com'') [46, 46]" by (simp add: ex_ev)
  have h6: "[] \<in> set (split_on (ascii ''example..com'') 46)" by (simp add: ex_ev)
  have h: "ascii ''user'' = [] \<or> startswith (ascii ''user'') [46] \<or> endswith (ascii ''user'') [46]
         \<or> contains (ascii ''user'') [46, 46]
         \<or> startswith (ascii ''example..com'') [46] \<or> endswith (ascii ''example..com'') [46]
         \<or> contains (ascii ''example..com'') [46, 46]
         \<or> [] \<in> set (split_on (ascii ''example..com'') 46)"
    using h5 by blast
  show ?thesis
    using h1 h2 h3 h4 h5 h6 empty_part_invalid [OF h1 h2 h3 h4 h, of repr_quote] by blast
qed

text \<open>
  C7: every string with exactly one \<open>@\<close> whose domain, the text after the \<open>@\<close>,
  contains no dot is rejected.
\<close>

theorem no_dot_domain_invalid:
  assumes "count_char (strip s) 64 = 1" and "rsplit1 (strip s) 64 = [local, domain]"
    and "46 \<notin> set domain"
  shows "\<exists>r. validate_email repr (PyStr s) = Inr (False, r)"
proof (rule validate_email_invalid)
  fix r
  show "validate_email repr (PyStr s) \<noteq> Inr (True, r)"
  proof
    assume "validate_email repr (PyStr s) = Inr (True, r)"
    from validate_email_valid_inv [OF this] assms(2)
    have "2 \<le> length (split_on domain 46)" by auto
    with assms(3) show False by (simp add: split_on_no_sep)
  qed
qed

theorem no_dot_domain_invalid_witness:
  "count_char (strip (ascii ''user@example'')) 64 = 1
   \<and> rsplit1 (strip (ascii ''user@example'')) 64 = [ascii ''user'', ascii ''example'']
   \<and> 46 \<notin> set (ascii ''example'')
   \<and> (\<exists>r. validate_email repr_quote (PyStr (ascii ''user@example'')) = Inr (False, r))"
proof -
  have h1: "count_char (strip (ascii ''user@example'')) 64 = 1" by (simp add: ex_ev)
  have h2: "rsplit1 (strip (ascii ''user@example'')) 64 = [ascii ''user'', ascii ''example'']"
    by (simp add: ex_ev)
  have h3: "46 \<notin> set (ascii ''example'')" by (simp add: ex_ev)
  show ?thesis using h1 h2 h3 no_dot_domain_invalid [OF h1 h2 h3, of repr_quote] by blast
qed

text \<open>
  C8: every string with exactly one \<open>@\<close> whose last domain label contains a digit or has
  length 1 is rejected.  (That a valid address has a purely alphabetic last label of 2 to 63
  characters is \<open>valid_tld_alphabetic\<close>; that earlier labels may have one character or
  digits is \<open>nonfinal_label_example\<close>.)
\<close>

theorem bad_tld_invalid:
  assumes "count_char (strip s) 64 = 1" and "rsplit1 (strip s) 64 = [local, domain]"
    and "(\<exists>c\<in>set (last (split_on domain 46)). is_digit c)
         \<or> length (last (split_on domain 46)) = 1"
  shows "\<exists>r. validate_email repr (PyStr s) = Inr (False, r)"
proof (rule validate_email_invalid)
  fix r
  show "validate_email repr (PyStr s) \<noteq> Inr (True, r)"
  proof
    assume "validate_email repr (PyStr s) = Inr (True, r)"
    from validate_email_valid_inv [OF this] assms(2)
    have "tld_re_match (last (split_on domain 46))" by auto
    from tld_re_match_D [OF this] assms(3) show False by auto
  qed
qed

theorem bad_tld_invalid_witness:
  "count_char (strip (ascii ''user@example.123'')) 64 = 1
   \<and> rsplit1 (strip (ascii ''user@example.123'')) 64 = [ascii ''user'', ascii ''example.123'']
   \<and> last (split_on (ascii ''example.123'') 46) = ascii ''123''
   \<and> (\<exists>c\<in>set (ascii ''123''). is_digit c)
   \<and> (\<exists>r. validate_email repr_quote (PyStr (ascii ''user@example.123'')) = Inr (False, r))"
proof -
  have h1: "count_char (strip (ascii ''user@example.123'')) 64 = 1" by (simp add: ex_ev)
  have h2: "rsplit1 (strip (ascii ''user@example.123'')) 64
              = [ascii ''user'', ascii ''example.123'']" by (simp add: ex_ev)
  have h3: "last (split_on (ascii ''example.123'') 46) = ascii ''123''" by (simp add: ex_ev)
  have h4: "\<exists>c\<in>set (ascii ''123''). is_digit c" by (simp add: ex_ev)
  have h: "(\<exists>c\<in>set (last (split_on (ascii ''example.123'') 46)). is_digit c)
         \<or> length (last (split_on (ascii ''example.123'') 46)) = 1"
    using h3 h4 by simp
  show ?thesis using h1 h2 h3 h4 bad_tld_invalid [OF h1 h2 h, of repr_quote] by blast
qed

text \<open>
  C9: the branch that reports a domain longer than 255 characters is unreachable.  For every
  input value and every boolean, the result of \<open>validate_email\<close> is never the pair of that
  boolean and the reason "Domain part is too long (more than 255 characters).": an input
  that reaches the check has a trimmed length of at most 254, one \<open>@\<close> and a non-empty local
  part, so its domain has at most 252 characters (\<open>domain_length_bound\<close>).
\<close>

theorem domain_too_long_unreachable:
  "validate_email repr v \<noteq> Inr (b, ascii ''Domain part is too long (more than 255 characters).'')"
proof (cases v)
  case (PyStr s)
  show ?thesis
  proof
    assume a: "validate_email repr v = Inr (b, ascii ''Domain part is too long (more than 255 characters).'')"
    show False
      using a PyStr unfolding validate_email_def Let_def index_last_def
      by (auto split: if_splits list.splits option.splits sum.splits
            dest!: local_loop_reason label_loop_reason dest: domain_check_passes simp: ascii_def)
  qed
qed (auto simp: validate_email_def ascii_def)

theorem domain_too_long_unreachable_witness:
  "validate_email repr_quote (PyStr (ascii ''a@'' @ replicate 252 98))
     \<noteq> Inr (False, ascii ''Domain part is too long (more than 255 characters).'')"
  using domain_too_long_unreachable [of repr_quote "PyStr (ascii ''a@'' @ replicate 252 98)" False]
  by simp

text \<open>
  C10: for every input value, when \<open>validate_email\<close> returns the pair \<open>(b, r)\<close>, the boolean
  \<open>b\<close> is true exactly when the reason \<open>r\<close> is the string "OK".
\<close>

theorem ok_iff_reason_OK:
  assumes "validate_email repr v = Inr (b, r)"
  shows "b \<longleftrightarrow> r = ascii ''OK''"
proof (cases v)
  case (PyStr s)
  show ?thesis
      using assms PyStr unfolding validate_email_def Let_def index_last_def
      by (auto split: if_splits list.splits option.splits sum.splits
            dest!: local_loop_reason label_loop_reason simp: ascii_def)
qed (use assms in \<open>auto simp: validate_email_def ascii_def\<close>)

theorem ok_iff_reason_OK_witness:
  "validate_email repr_quote (PyStr (ascii ''user@example''))
     = Inr (False, ascii ''Domain should contain at least one dot (e.g., example.com).'')
   \<and> (False \<longleftrightarrow>
        ascii ''Domain should contain at least one dot (e.g., example.com).'' = ascii ''OK'')"
proof -
  have h: "validate_email repr_quote (PyStr (ascii ''user@example''))
     = Inr (False, ascii ''Domain should contain at least one dot (e.g., example.com).'')"
    by (simp add: ev)
  show ?thesis using h ok_iff_reason_OK [OF h] by simp
qed

end
